theory Spec2Isabelle
  imports Main
begin

section \<open>The Termtris controller (termtris.py)\<close>

text \<open>
  The source file holds the controller class \<open>Termtris\<close> and the entry point \<open>main\<close>.
  The backend (\<open>tt_backend.TetrisBackend\<close>), the panels (\<open>tt_panel\<close>), the
  tetromino type (\<open>tt_tetro.Tetro\<close>) and the terminal modules (\<open>termkey\<close>,
  \<open>cursor\<close>, \<open>color256\<close>) are imported by it and are not part of it. They enter the
  model as follows:
  \<^item> the tetromino type is the type variable \<open>'t\<close>, the backend object a value of the
    type variable \<open>'b\<close>, and the backend's methods are the fields of a record of
    functions that is passed to every controller function;
  \<^item> every call that the controller issues to the backend, to a panel or to the
    terminal is appended to a trace of events, in the order of the calls;
  \<^item> what the terminal reads return (\<open>getkey\<close>, \<open>termkey.getch\<close>) is the input of the
    loop.
\<close>

subsection \<open>Values, errors, events\<close>

text \<open>The members of \<open>termkey.Key\<close> that the source names; \<open>OTHER n\<close> is any other member.\<close>

datatype key = NONE | ENTER | ESC | DOWN | SPACE | UP | RIGHT | LEFT
  | CONTROL_D | CONTROL_X | OTHER nat

text \<open>The exceptions the controller can raise, with the message where the source gives one.\<close>

datatype error = ValueError string | EnvironmentError string | OSError
  | IndexError | TypeError | AttributeError | ZeroDivisionError

text \<open>
  The result of a backend action, \<open>tuple[Tetro, int, int, list[int] | None]\<close>:
  tetromino, row, column, and the eliminated rows (\<open>None\<close> when the tetromino has not
  landed).
\<close>

type_synonym 't action = "'t \<times> int \<times> int \<times> int list option"

text \<open>
  What a key handler returns: \<open>None\<close>, an action tuple, or (the pause handler) a bool.
\<close>

datatype 't pyval = PyNone | PyBool bool | PyTuple "'t action"

text \<open>Python truthiness: \<open>None\<close> and \<open>False\<close> are falsy, a 4-tuple is truthy.\<close>

fun truthy :: "'t pyval \<Rightarrow> bool" where
  "truthy PyNone = False"
| "truthy (PyBool b) = b"
| "truthy (PyTuple a) = True"

fun of_action :: "'t action option \<Rightarrow> 't pyval" where
  "of_action None = PyNone"
| "of_action (Some a) = PyTuple a"

datatype align = CENTER

datatype color = DEEP_KHAKI | COFFEE

text \<open>
  One constructor for every call the controller issues to a collaborator. The float
  delay \<open>0.1\<close> of \<open>blink_rows\<close> is not recorded; keyword arguments that are left out are
  \<open>None\<close>.
\<close>

datatype 't event =
    NewBackend int int | KickOff | MoveDown | FallDown | Rotate | MoveRight | MoveLeft
  | PrintGrid
  | NewActivePanel int int int int | ActShow | ActClear | MergeTetro
  | BlinkRows "int list" int | RemoveRows "int list" | ActRefreshTetro 't int int
  | NewMessagePanel int int int int | MsgShow | PutText string "align option" "int option"
  | AddSeparator "int option" | TetroPos int int | MsgRefreshTetro 't
  | SwitchScreen | ClearScreen | HideCursor | SetColor color color
  | SetParams "bool option" "bool option" | ResetColor | ShowCursor | RestoreScreen

fun is_engine_call :: "'t event \<Rightarrow> bool" where
  "is_engine_call KickOff = True"
| "is_engine_call MoveDown = True"
| "is_engine_call FallDown = True"
| "is_engine_call Rotate = True"
| "is_engine_call MoveRight = True"
| "is_engine_call MoveLeft = True"
| "is_engine_call PrintGrid = True"
| "is_engine_call _ = False"

subsection \<open>The backend and the controller object\<close>

text \<open>
  The methods and the attribute of \<open>TetrisBackend\<close> that the controller uses. Each method
  takes the backend's state and returns its result with the new state.
\<close>

record ('b, 't) backend_ops =
  new_backend :: "int \<Rightarrow> int \<Rightarrow> 'b"
  kick_off :: "'b \<Rightarrow> 't action option \<times> 'b"
  move_down :: "'b \<Rightarrow> 't action option \<times> 'b"
  fall_down :: "'b \<Rightarrow> 't action option \<times> 'b"
  rotate_tetro :: "'b \<Rightarrow> 't action option \<times> 'b"
  move_right :: "'b \<Rightarrow> 't action option \<times> 'b"
  move_left :: "'b \<Rightarrow> 't action option \<times> 'b"
  print_grid :: "'b \<Rightarrow> 't pyval \<times> 'b"
  next_tetro :: "'b \<Rightarrow> 't"

text \<open>
  The attributes of a \<open>Termtris\<close> object. \<open>speed\<close> is only annotated in \<open>__init__\<close>
  (\<open>self.speed: int\<close>), so it is \<open>None\<close> until it is first assigned. The two panels
  are represented by the events sent to them, in \<open>trace\<close>.
\<close>

record ('b, 't) termtris =
  backend :: 'b
  score :: int
  highest :: int
  speed :: "int option"
  tick :: int
  stat_sect_row :: int
  trace :: "'t event list"

definition SCORE_TABLE :: "int list" where
  "SCORE_TABLE = [10, 100, 200, 400, 800]"

definition LEVEL_TABLE :: "int list" where
  "LEVEL_TABLE = [1000, 2000, 4000, 8000, 16000, 32000, 64000, 80000000]"

text \<open>Indexing a tuple as Python does: a negative index counts from the end.\<close>

definition py_index :: "'a list \<Rightarrow> int \<Rightarrow> 'a option" where
  "py_index xs i =
     (if 0 \<le> i \<and> i < int (length xs) then Some (xs ! nat i)
      else if i < 0 \<and> - int (length xs) \<le> i then Some (xs ! nat (int (length xs) + i))
      else None)"

definition emit :: "'t event list \<Rightarrow> ('b, 't) termtris \<Rightarrow> ('b, 't) termtris" where
  "emit evs w = w\<lparr>trace := trace w @ evs\<rparr>"

text \<open>
  The calls issued between two states of the controller, the second reached from the
  first, and among a list of calls those that go to the backend.
\<close>

definition issued :: "('b, 't) termtris \<Rightarrow> ('b, 't) termtris \<Rightarrow> 't event list" where
  "issued w w' = drop (length (trace w)) (trace w')"

definition engine_calls :: "'t event list \<Rightarrow> 't event list" where
  "engine_calls tr = filter is_engine_call tr"

text \<open>Calling a backend method: the call is recorded and the backend's state replaced.\<close>

definition call_backend ::
  "'t event \<Rightarrow> ('b \<Rightarrow> 'r \<times> 'b) \<Rightarrow> ('b, 't) termtris \<Rightarrow> 'r \<times> ('b, 't) termtris" where
  "call_backend ev f w =
     (case f (backend w) of (r, b') \<Rightarrow> (r, w\<lparr>backend := b', trace := trace w @ [ev]\<rparr>))"

subsection \<open>Formatting the statistics\<close>

definition digit_char :: "nat \<Rightarrow> char" where
  "digit_char d = ''0123456789'' ! d"

fun digits :: "nat \<Rightarrow> string" where
  "digits n = (if n < 10 then [digit_char n] else digits (n div 10) @ [digit_char (n mod 10)])"

declare digits.simps [simp del]

definition str_int :: "int \<Rightarrow> string" where
  "str_int i = (if i < 0 then CHR ''-'' # digits (nat (- i)) else digits (nat i))"

text \<open>The format \<open><6d\<close>: left-aligned in a field of width 6.\<close>

definition ljust6 :: "string \<Rightarrow> string" where
  "ljust6 s = s @ replicate (6 - length s) CHR '' ''"

definition stat_text :: "int \<Rightarrow> int \<Rightarrow> int \<Rightarrow> string" where
  "stat_text level sc hi =
     ''Next Tetro:'' @ [CHR 0x0A] @
     ''Level: '' @ str_int level @ [CHR 0x0A] @
     ''Score: '' @ ljust6 (str_int sc) @ [CHR 0x0A] @
     ''Highest: '' @ ljust6 (str_int hi)"

subsection \<open>The methods of \<open>Termtris\<close>\<close>

text \<open>
  \<open>__init__\<close>: the events so far are passed in, the three constructor calls are added.
\<close>

definition init ::
  "('b, 't) backend_ops \<Rightarrow> int \<Rightarrow> int \<Rightarrow> int \<Rightarrow> int \<Rightarrow> 't event list \<Rightarrow> ('b, 't) termtris" where
  "init ops o_row o_col width height tr =
     \<lparr>backend = new_backend ops width height,
      score = 0, highest = 0, speed = None, tick = 0,
      stat_sect_row = height - 5,
      trace = tr @ [NewActivePanel o_row o_col width height,
                    NewMessagePanel o_row (o_col + (width + 1) * 2) width height,
                    NewBackend width height]\<rparr>"

text \<open>
  \<open>_renew_game_stat\<close>: the loop \<open>for i, level in enumerate(_LEVEL_TABLE)\<close> with its
  \<open>break\<close>; \<open>i\<close> is the index reached and the list the levels not yet visited.
\<close>

fun renew_loop ::
  "('b, 't) backend_ops \<Rightarrow> nat \<Rightarrow> int list \<Rightarrow> ('b, 't) termtris \<Rightarrow> ('b, 't) termtris" where
  "renew_loop ops i [] w = w"
| "renew_loop ops i (level # rest) w =
     (if score w < level then
        (emit [PutText (stat_text (int i + 1) (score w) (highest w)) None
                 (Some (stat_sect_row w + 1)),
               MsgRefreshTetro (next_tetro ops (backend w))] w)
        \<lparr>speed := Some (int (length LEVEL_TABLE) - int i)\<rparr>
      else renew_loop ops (Suc i) rest w)"

definition renew_game_stat ::
  "('b, 't) backend_ops \<Rightarrow> ('b, 't) termtris \<Rightarrow> ('b, 't) termtris" where
  "renew_game_stat ops w = renew_loop ops 0 LEVEL_TABLE w"

text \<open>\<open>_init_msg_panel\<close>.\<close>

definition init_msg_panel ::
  "('b, 't) backend_ops \<Rightarrow> ('b, 't) termtris \<Rightarrow> ('b, 't) termtris" where
  "init_msg_panel ops w =
     renew_game_stat ops
       (emit [PutText ''Termtris'' (Some CENTER) None,
              AddSeparator None,
              PutText (''Right:  Move Right'' @ [CHR 0x0A] @
                       ''Left:   Move Left'' @ [CHR 0x0A] @
                       ''Up:     Rotate'' @ [CHR 0x0A] @
                       ''Down:   Speed up Fall'' @ [CHR 0x0A] @
                       ''Space:  Fall to Ground'' @ [CHR 0x0A] @
                       ''Enter:  New Game'' @ [CHR 0x0A] @
                       ''Esc:    Pause Game'' @ [CHR 0x0A] @
                       ''Ctrl-X: Exit Game'') None None,
              AddSeparator None,
              AddSeparator (Some (stat_sect_row w)),
              TetroPos (stat_sect_row w + 1) 8] w)"

text \<open>
  \<open>_update_score\<close>: \<open>_SCORE_TABLE[row_num]\<close> raises \<open>IndexError\<close> out of range, before
  anything is assigned.
\<close>

definition update_score ::
  "('b, 't) backend_ops \<Rightarrow> int \<Rightarrow> ('b, 't) termtris \<Rightarrow> (error + unit) \<times> ('b, 't) termtris" where
  "update_score ops row_num w =
     (case py_index SCORE_TABLE row_num of
        None \<Rightarrow> (Inl IndexError, w)
      | Some points \<Rightarrow>
          (let w1 = w\<lparr>score := score w + points\<rparr>;
               w2 = (if score w1 > highest w1 then w1\<lparr>highest := score w1\<rparr> else w1)
           in (Inr (), renew_game_stat ops w2)))"

text \<open>\<open>_new_game\<close>.\<close>

definition new_game ::
  "('b, 't) backend_ops \<Rightarrow> ('b, 't) termtris \<Rightarrow> (error + 't pyval) \<times> ('b, 't) termtris" where
  "new_game ops w =
     (case call_backend KickOff (kick_off ops) (emit [ActClear] w) of
        (res, w1) \<Rightarrow>
          (case update_score ops 0 (w1\<lparr>score := 0\<rparr>) of
             (Inl e, w2) \<Rightarrow> (Inl e, w2)
           | (Inr u, w2) \<Rightarrow> (Inr (of_action res), w2)))"

text \<open>
  \<open>_idle_fall\<close>: reading \<open>self.speed\<close> before it is assigned raises \<open>AttributeError\<close>,
  \<open>%\<close> by zero raises \<open>ZeroDivisionError\<close>. Python's \<open>%\<close> and \<open>mod\<close> on \<open>int\<close> agree
  (the result has the sign of the divisor).
\<close>

definition idle_fall ::
  "('b, 't) backend_ops \<Rightarrow> ('b, 't) termtris \<Rightarrow> (error + 't pyval) \<times> ('b, 't) termtris" where
  "idle_fall ops w =
     (case speed w of
        None \<Rightarrow> (Inl AttributeError, w)
      | Some s \<Rightarrow>
          if s = 0 then (Inl ZeroDivisionError, w)
          else
            (let w1 = w\<lparr>tick := (tick w + 1) mod s\<rparr>
             in if tick w1 \<noteq> 0 then (Inr PyNone, w1)
                else (case call_backend MoveDown (move_down ops) w1 of
                        (res, w2) \<Rightarrow> (Inr (of_action res), w2))))"

text \<open>\<open>_act_response\<close>.\<close>

definition act_response ::
  "('b, 't) backend_ops \<Rightarrow> 't \<Rightarrow> int \<Rightarrow> int \<Rightarrow> int list option \<Rightarrow> ('b, 't) termtris
     \<Rightarrow> (error + unit) \<times> ('b, 't) termtris" where
  "act_response ops tetro row col elim_rows w =
     (case elim_rows of
        None \<Rightarrow> (Inr (), emit [ActRefreshTetro tetro row col] w)
      | Some rows \<Rightarrow>
          (let w1 = emit [MergeTetro] w;
               w2 = (if rows \<noteq> [] then emit [BlinkRows rows 3, RemoveRows rows] w1 else w1)
           in case update_score ops (int (length rows)) w2 of
                (Inl e, w3) \<Rightarrow> (Inl e, w3)
              | (Inr u, w3) \<Rightarrow> (Inr (), emit [ActRefreshTetro tetro row col] w3)))"

subsection \<open>The loop of \<open>run\<close>\<close>

text \<open>
  A handler is a function of the controller's state. A backend method used as a handler
  returns the method's result. The pause handler \<open>lambda: not termkey.getch()\<close> takes
  the string that \<open>termkey.getch()\<close> returns; the empty string is the falsy one.
\<close>

type_synonym ('b, 't) handler =
  "('b, 't) termtris \<Rightarrow> (error + 't pyval) \<times> ('b, 't) termtris"

definition backend_act ::
  "'t event \<Rightarrow> ('b \<Rightarrow> 't action option \<times> 'b) \<Rightarrow> ('b, 't) handler" where
  "backend_act ev f w = (case call_backend ev f w of (res, w1) \<Rightarrow> (Inr (of_action res), w1))"

definition backend_print :: "('b, 't) backend_ops \<Rightarrow> ('b, 't) handler" where
  "backend_print ops w =
     (case call_backend PrintGrid (print_grid ops) w of (res, w1) \<Rightarrow> (Inr res, w1))"

definition pause :: "string \<Rightarrow> ('b, 't) handler" where
  "pause ch w = (Inr (PyBool (\<not> (ch \<noteq> []))), w)"

text \<open>The dictionary \<open>key_funcs\<close>.\<close>

definition key_funcs :: "('b, 't) backend_ops \<Rightarrow> string \<Rightarrow> key \<rightharpoonup> ('b, 't) handler" where
  "key_funcs ops ch =
     [NONE \<mapsto> idle_fall ops,
      ENTER \<mapsto> new_game ops,
      ESC \<mapsto> pause ch,
      DOWN \<mapsto> backend_act MoveDown (move_down ops),
      SPACE \<mapsto> backend_act FallDown (fall_down ops),
      UP \<mapsto> backend_act Rotate (rotate_tetro ops),
      RIGHT \<mapsto> backend_act MoveRight (move_right ops),
      LEFT \<mapsto> backend_act MoveLeft (move_left ops),
      CONTROL_D \<mapsto> backend_print ops]"

text \<open>\<open>key_funcs.get(key, self._idle_fall)\<close>.\<close>

definition dispatch :: "('b, 't) backend_ops \<Rightarrow> string \<Rightarrow> key \<Rightarrow> ('b, 't) handler" where
  "dispatch ops ch k = (case key_funcs ops ch k of Some h \<Rightarrow> h | None \<Rightarrow> idle_fall ops)"

text \<open>
  One iteration of the loop body for the key \<open>k\<close>:
  \<open>res = key_funcs.get(key, self._idle_fall)()\<close>, then, if \<open>res\<close> is truthy,
  \<open>self._act_response(res[0], res[1], res[2], res[3])\<close>. Subscripting a bool raises
  \<open>TypeError\<close>. \<open>ch\<close> is what \<open>termkey.getch()\<close> returns if it is called in this
  iteration.
\<close>

definition loop_step ::
  "('b, 't) backend_ops \<Rightarrow> key \<times> string \<Rightarrow> ('b, 't) termtris
     \<Rightarrow> (error + unit) \<times> ('b, 't) termtris" where
  "loop_step ops inp w =
     (case inp of (k, ch) \<Rightarrow>
        (case dispatch ops ch k w of
           (Inl e, w1) \<Rightarrow> (Inl e, w1)
         | (Inr res, w1) \<Rightarrow>
             if truthy res then
               (case res of
                  PyTuple (tetro, row, col, elim_rows) \<Rightarrow>
                    act_response ops tetro row col elim_rows w1
                | _ \<Rightarrow> (Inl TypeError, w1))
             else (Inr (), w1)))"

text \<open>
  The loop \<open>while key != Key.CONTROL_X\<close> over the keys that \<open>getkey\<close> returns. The input
  is a finite list; when it is used up the loop is waiting in \<open>getkey\<close>.
\<close>

datatype status = Quit | AwaitingKey

fun run_loop ::
  "('b, 't) backend_ops \<Rightarrow> (key \<times> string) list \<Rightarrow> ('b, 't) termtris
     \<Rightarrow> (error + status) \<times> ('b, 't) termtris" where
  "run_loop ops [] w = (Inr AwaitingKey, w)"
| "run_loop ops (inp # inps) w =
     (if fst inp = CONTROL_X then (Inr Quit, w)
      else (case loop_step ops inp w of
              (Inl e, w1) \<Rightarrow> (Inl e, w1)
            | (Inr u, w1) \<Rightarrow> run_loop ops inps w1))"

definition run ::
  "('b, 't) backend_ops \<Rightarrow> (key \<times> string) list \<Rightarrow> ('b, 't) termtris
     \<Rightarrow> (error + status) \<times> ('b, 't) termtris" where
  "run ops inps w = run_loop ops inps (init_msg_panel ops (emit [ActShow, MsgShow] w))"

text \<open>\<open>n\<close> calls of \<open>_idle_fall\<close> in a row; an exception ends the sequence.\<close>

fun idle_calls ::
  "('b, 't) backend_ops \<Rightarrow> nat \<Rightarrow> ('b, 't) termtris \<Rightarrow> (error + unit) \<times> ('b, 't) termtris" where
  "idle_calls ops 0 w = (Inr (), w)"
| "idle_calls ops (Suc n) w =
     (case idle_fall ops w of
        (Inl e, w1) \<Rightarrow> (Inl e, w1)
      | (Inr res, w1) \<Rightarrow> idle_calls ops n w1)"

subsection \<open>The entry point \<open>main\<close>\<close>

text \<open>
  The builtin \<open>int\<close> is the parameter \<open>py_int\<close> (\<open>None\<close> where \<open>int\<close> raises
  \<open>ValueError\<close>; its message is shortened to the fixed part). \<open>argv\<close> is \<open>sys.argv\<close>.
\<close>

definition dims_message :: string where
  "dims_message = ''The width must be no less than 12 and the height 20''"

definition parse_dims :: "(string \<Rightarrow> int option) \<Rightarrow> string list \<Rightarrow> error + int \<times> int" where
  "parse_dims py_int argv =
     (if length argv < 3 then Inr (12, 20)
      else (case py_int (argv ! 1) of
              None \<Rightarrow> Inl (ValueError ''invalid literal for int() with base 10'')
            | Some width \<Rightarrow>
                (case py_int (argv ! 2) of
                   None \<Rightarrow> Inl (ValueError ''invalid literal for int() with base 10'')
                 | Some height \<Rightarrow> Inr (width, height))))"

text \<open>
  \<open>main\<close> returns how the program ends together with all the calls it has issued.
  \<open>term_size\<close> is what \<open>os.get_terminal_size()\<close> returns (\<open>None\<close> where it raises
  \<open>OSError\<close>). The \<open>finally\<close> block runs when \<open>run\<close> returns or raises; while the loop
  waits for a key it has not run.
\<close>

definition main ::
  "('b, 't) backend_ops \<Rightarrow> (string \<Rightarrow> int option) \<Rightarrow> string list \<Rightarrow> (int \<times> int) option
     \<Rightarrow> (key \<times> string) list \<Rightarrow> (error + status) \<times> 't event list" where
  "main ops py_int argv term_size inps =
     (case parse_dims py_int argv of
        Inl e \<Rightarrow> (Inl e, [])
      | Inr (width, height) \<Rightarrow>
          if width < 12 \<or> height < 20 then (Inl (ValueError dims_message), [])
          else
            (case term_size of
               None \<Rightarrow> (Inl OSError, [])
             | Some (scr_width, scr_height) \<Rightarrow>
                 (let o_row = min ((scr_height - (height + 2)) div 2 + 1) 5;
                      o_col = (scr_width - (width * 2 + 3) * 2) div 2 + 1
                  in if o_row \<le> 0 \<or> o_col \<le> 0
                     then (Inl (EnvironmentError ''Screen too small to fit game''), [])
                     else
                       (case run ops inps
                               (init ops o_row o_col width height
                                  [SwitchScreen, ClearScreen, HideCursor,
                                   SetColor DEEP_KHAKI COFFEE,
                                   SetParams (Some False) (Some False)]) of
                          (r, w) \<Rightarrow>
                            if r = Inr AwaitingKey then (r, trace w)
                            else (r, trace w @ [SetParams None None, ResetColor,
                                                ShowCursor, RestoreScreen])))))"

subsection \<open>The level of a score, and a stub backend\<close>

text \<open>
  \<open>level_index sc i\<close>: \<open>i\<close> is the smallest index of the level table whose threshold
  strictly exceeds the score \<open>sc\<close>.
\<close>

definition level_index :: "int \<Rightarrow> nat \<Rightarrow> bool" where
  "level_index sc i \<longleftrightarrow>
     i < length LEVEL_TABLE \<and> sc < LEVEL_TABLE ! i \<and> (\<forall>j<i. \<not> sc < LEVEL_TABLE ! j)"

text \<open>
  A stub backend on which the controller can be evaluated: its state counts the calls
  of \<open>kick_off\<close>, \<open>move_down\<close> and \<open>fall_down\<close>; a tetromino is a number; \<open>fall_down\<close>
  reports a landing that eliminates row 19. \<open>demo_int\<close> stands for \<open>int\<close> on a few
  literals.
\<close>

definition demo_ops :: "(nat, nat) backend_ops" where
  "demo_ops =
     \<lparr>new_backend = (\<lambda>width height. 0),
      kick_off = (\<lambda>b. (Some (1, 0, 5, None), Suc b)),
      move_down = (\<lambda>b. (Some (1, int b, 5, None), Suc b)),
      fall_down = (\<lambda>b. (Some (2, 0, 5, Some [19]), Suc b)),
      rotate_tetro = (\<lambda>b. (Some (1, int b, 5, None), b)),
      move_right = (\<lambda>b. (Some (1, int b, 6, None), b)),
      move_left = (\<lambda>b. (Some (1, int b, 4, None), b)),
      print_grid = (\<lambda>b. (PyNone, b)),
      next_tetro = (\<lambda>b. 2)\<rparr>"

definition demo_game :: "(nat, nat) termtris" where
  "demo_game = init demo_ops 1 1 12 20 []"

definition demo_started :: "(nat, nat) termtris" where
  "demo_started = init_msg_panel demo_ops (emit [ActShow, MsgShow] demo_game)"

definition demo_int :: "string \<Rightarrow> int option" where
  "demo_int = map_of [(''5'', 5), (''12'', 12), (''20'', 20), (''30'', 30)]"

section \<open>Properties\<close>

subsection \<open>Basic facts\<close>

lemma emit_fields [simp]:
  "backend (emit evs w) = backend w"
  "score (emit evs w) = score w"
  "highest (emit evs w) = highest w"
  "speed (emit evs w) = speed w"
  "tick (emit evs w) = tick w"
  "stat_sect_row (emit evs w) = stat_sect_row w"
  "trace (emit evs w) = trace w @ evs"
  by (simp_all add: emit_def)

lemma call_backend_eq:
  "call_backend ev f w =
     (fst (f (backend w)), w\<lparr>backend := snd (f (backend w)), trace := trace w @ [ev]\<rparr>)"
  by (simp add: call_backend_def case_prod_beta)

lemma renew_loop_score [simp]: "score (renew_loop ops i ls w) = score w"
  by (induction ls arbitrary: i) simp_all

lemma renew_game_stat_score [simp]: "score (renew_game_stat ops w) = score w"
  by (simp add: renew_game_stat_def)

lemma renew_loop_highest [simp]: "highest (renew_loop ops i ls w) = highest w"
  by (induction ls arbitrary: i) simp_all

lemma renew_game_stat_highest [simp]: "highest (renew_game_stat ops w) = highest w"
  by (simp add: renew_game_stat_def)

lemma py_index_SCORE_TABLE_0: "py_index SCORE_TABLE 0 = Some 10"
  by (simp add: py_index_def SCORE_TABLE_def)

lemma renew_loop_backend [simp]: "backend (renew_loop ops i ls w) = backend w"
  by (induction ls arbitrary: i) simp_all

lemma renew_loop_tick [simp]: "tick (renew_loop ops i ls w) = tick w"
  by (induction ls arbitrary: i) simp_all

lemma renew_loop_engine [simp]:
  "engine_calls (trace (renew_loop ops i ls w)) = engine_calls (trace w)"
  by (induction ls arbitrary: i) (simp_all add: engine_calls_def)

lemma renew_loop_none: "\<forall>l \<in> set ls. l \<le> score w \<Longrightarrow> renew_loop ops i ls w = w"
  by (induction ls arbitrary: i) simp_all

lemma renew_game_stat_top: "80000000 \<le> score w \<Longrightarrow> renew_game_stat ops w = w"
  unfolding renew_game_stat_def by (rule renew_loop_none) (simp add: LEVEL_TABLE_def)

lemma renew_game_stat_speed: "score w < 80000000 \<Longrightarrow> \<exists>s. speed (renew_game_stat ops w) = Some s \<and> 1 \<le> s \<and> s \<le> 8"
  by (simp add: renew_game_stat_def LEVEL_TABLE_def)

lemma renew_loop_first:
  "i < length ls \<Longrightarrow> score w < ls ! i \<Longrightarrow> \<forall>j<i. ls ! j \<le> score w \<Longrightarrow>
   renew_loop ops k ls w =
     (emit [PutText (stat_text (int (k + i) + 1) (score w) (highest w)) None
                 (Some (stat_sect_row w + 1)),
               MsgRefreshTetro (next_tetro ops (backend w))] w)
        \<lparr>speed := Some (int (length LEVEL_TABLE) - int (k + i))\<rparr>"
proof (induction ls arbitrary: i k)
  case Nil
  then show ?case by simp
next
  case (Cons l ls)
  show ?case
  proof (cases i)
    case 0
    with Cons.prems show ?thesis by simp
  next
    case (Suc i')
    from Cons.prems Suc have "l \<le> score w" by auto
    moreover have "renew_loop ops (Suc k) ls w = (emit [PutText (stat_text (int (Suc k + i') + 1) (score w) (highest w)) None
                 (Some (stat_sect_row w + 1)),
               MsgRefreshTetro (next_tetro ops (backend w))] w)
        \<lparr>speed := Some (int (length LEVEL_TABLE) - int (Suc k + i'))\<rparr>"
      using Cons.prems Suc by (intro Cons.IH) auto
    ultimately show ?thesis using Suc by simp
  qed
qed

lemma renew_game_stat_fields [simp]:
  "backend (renew_game_stat ops w) = backend w"
  "tick (renew_game_stat ops w) = tick w"
  "engine_calls (trace (renew_game_stat ops w)) = engine_calls (trace w)"
  by (simp_all add: renew_game_stat_def)

lemma engine_calls_append [simp]:
  "engine_calls (xs @ ys) = engine_calls xs @ engine_calls ys"
  by (simp add: engine_calls_def)

lemma engine_calls_simps [simp]:
  "engine_calls [] = []"
  "engine_calls (e # es) = (if is_engine_call e then e # engine_calls es else engine_calls es)"
  by (simp_all add: engine_calls_def)

lemma dispatch_simps:
  "dispatch ops ch NONE = idle_fall ops"
  "dispatch ops ch ENTER = new_game ops"
  "dispatch ops ch ESC = pause ch"
  "dispatch ops ch DOWN = backend_act MoveDown (move_down ops)"
  "dispatch ops ch SPACE = backend_act FallDown (fall_down ops)"
  "dispatch ops ch UP = backend_act Rotate (rotate_tetro ops)"
  "dispatch ops ch RIGHT = backend_act MoveRight (move_right ops)"
  "dispatch ops ch LEFT = backend_act MoveLeft (move_left ops)"
  "dispatch ops ch CONTROL_D = backend_print ops"
  "dispatch ops ch CONTROL_X = idle_fall ops"
  "dispatch ops ch (OTHER n) = idle_fall ops"
  by (simp_all add: dispatch_def key_funcs_def)

lemma update_score_cases:
  "update_score ops n w = (Inl IndexError, w) \<and> py_index SCORE_TABLE n = None \<or>
   (\<exists>p w1. py_index SCORE_TABLE n = Some p \<and>
      update_score ops n w = (Inr (), renew_game_stat ops w1) \<and>
      score w1 = score w + p \<and> highest w1 = max (highest w) (score w + p) \<and>
      backend w1 = backend w \<and> speed w1 = speed w \<and> tick w1 = tick w \<and>
      stat_sect_row w1 = stat_sect_row w \<and> trace w1 = trace w)"
proof (cases "py_index SCORE_TABLE n")
  case None
  then show ?thesis by (simp add: update_score_def)
next
  case (Some p)
  show ?thesis
  proof (cases "highest w < score w + p")
    case True
    with Some have "update_score ops n w =
        (Inr (), renew_game_stat ops (w\<lparr>score := score w + p, highest := score w + p\<rparr>))"
      by (simp add: update_score_def Let_def)
    with Some True show ?thesis
      by (intro disjI2 exI [of _ p] exI [of _ "w\<lparr>score := score w + p, highest := score w + p\<rparr>"])
         (simp add: max_def)
  next
    case False
    with Some have "update_score ops n w = (Inr (), renew_game_stat ops (w\<lparr>score := score w + p\<rparr>))"
      by (simp add: update_score_def Let_def)
    with Some False show ?thesis
      by (intro disjI2 exI [of _ p] exI [of _ "w\<lparr>score := score w + p\<rparr>"])
         (simp add: max_def)
  qed
qed

lemma update_score_highest: "highest w \<le> highest (snd (update_score ops n w))"
  using update_score_cases [of ops n w] by auto

lemma update_score_score_le:
  "fst (update_score ops n w) = Inr () \<Longrightarrow>
   score (snd (update_score ops n w)) \<le> highest (snd (update_score ops n w))"
  using update_score_cases [of ops n w] by auto

lemma update_score_engine: "engine_calls (trace (snd (update_score ops n w))) = engine_calls (trace w)"
  using update_score_cases [of ops n w] by auto

lemma update_score_error: "fst (update_score ops n w) = Inl e \<Longrightarrow> e = IndexError"
  using update_score_cases [of ops n w] by auto

lemma issuedI: "trace w' = trace w @ evs \<Longrightarrow> issued w w' = evs"
  by (simp add: issued_def)

lemma renew_loop_trace:
  "\<exists>evs. trace (renew_loop ops i ls w) = trace w @ evs \<and>
     (\<forall>e\<in>set evs. (\<exists>s a r. e = PutText s a r) \<or> (\<exists>t. e = MsgRefreshTetro t))"
  by (induction ls arbitrary: i) simp_all

lemma renew_game_stat_trace:
  "\<exists>evs. trace (renew_game_stat ops w) = trace w @ evs \<and>
     (\<forall>e\<in>set evs. (\<exists>s a r. e = PutText s a r) \<or> (\<exists>t. e = MsgRefreshTetro t))"
  unfolding renew_game_stat_def by (rule renew_loop_trace)

lemma idle_fall_eq:
  "speed w = Some n \<Longrightarrow> n \<noteq> 0 \<Longrightarrow>
   idle_fall ops w =
     (if (tick w + 1) mod n \<noteq> 0 then (Inr PyNone, w\<lparr>tick := (tick w + 1) mod n\<rparr>)
      else (Inr (of_action (fst (move_down ops (backend w)))),
            w\<lparr>tick := 0, backend := snd (move_down ops (backend w)),
              trace := trace w @ [MoveDown]\<rparr>))"
  by (simp add: idle_fall_def call_backend_eq Let_def)

lemma idle_fall_error:
  "fst (idle_fall ops w) = Inl e \<Longrightarrow> e = AttributeError \<or> e = ZeroDivisionError"
  by (auto simp add: idle_fall_def call_backend_eq Let_def split: option.splits if_splits)

lemma idle_fall_highest: "highest (snd (idle_fall ops w)) = highest w"
  by (simp add: idle_fall_def call_backend_eq Let_def split: option.splits)


lemma new_game_eq:
  "new_game ops w =
     (Inr (of_action (fst (kick_off ops (backend w)))),
      renew_game_stat ops
        (if highest w < 10
         then w\<lparr>backend := snd (kick_off ops (backend w)),
                trace := trace w @ [ActClear, KickOff], score := 10, highest := 10\<rparr>
         else w\<lparr>backend := snd (kick_off ops (backend w)),
                trace := trace w @ [ActClear, KickOff], score := 10\<rparr>))"
  by (simp add: new_game_def call_backend_eq update_score_def py_index_SCORE_TABLE_0
      Let_def emit_def)

lemma backend_act_eq:
  "backend_act ev f w =
     (Inr (of_action (fst (f (backend w)))),
      w\<lparr>backend := snd (f (backend w)), trace := trace w @ [ev]\<rparr>)"
  by (simp add: backend_act_def call_backend_eq)

lemma backend_print_eq:
  "backend_print ops w =
     (Inr (fst (print_grid ops (backend w))),
      w\<lparr>backend := snd (print_grid ops (backend w)), trace := trace w @ [PrintGrid]\<rparr>)"
  by (simp add: backend_print_def call_backend_eq)

lemma act_response_None:
  "act_response ops t r c None w = (Inr (), emit [ActRefreshTetro t r c] w)"
  by (simp add: act_response_def)

lemma act_response_Some:
  "act_response ops t r c (Some rows) w =
    (case update_score ops (int (length rows))
            (emit (MergeTetro # (if rows \<noteq> [] then [BlinkRows rows 3, RemoveRows rows] else [])) w) of
       (Inl e, w3) \<Rightarrow> (Inl e, w3)
     | (Inr u, w3) \<Rightarrow> (Inr (), emit [ActRefreshTetro t r c] w3))"
  by (simp add: act_response_def Let_def emit_def)

lemma act_response_Some_cases:
  "act_response ops t r c (Some rows) w =
     (Inl IndexError,
      emit (MergeTetro # (if rows \<noteq> [] then [BlinkRows rows 3, RemoveRows rows] else [])) w)
   \<and> py_index SCORE_TABLE (int (length rows)) = None
   \<or> (\<exists>p w1. py_index SCORE_TABLE (int (length rows)) = Some p \<and>
        act_response ops t r c (Some rows) w =
          (Inr (), emit [ActRefreshTetro t r c] (renew_game_stat ops w1)) \<and>
        score w1 = score w + p \<and> highest w1 = max (highest w) (score w + p) \<and>
        backend w1 = backend w \<and> speed w1 = speed w \<and> tick w1 = tick w \<and>
        stat_sect_row w1 = stat_sect_row w \<and>
        trace w1 = trace w @
          MergeTetro # (if rows \<noteq> [] then [BlinkRows rows 3, RemoveRows rows] else []))"
  using update_score_cases [of ops "int (length rows)"
      "emit (MergeTetro # (if rows \<noteq> [] then [BlinkRows rows 3, RemoveRows rows] else [])) w"]
  by (auto simp add: act_response_Some split del: if_split)

lemma act_response_highest: "highest w \<le> highest (snd (act_response ops t r c el w))"
proof (cases el)
  case None
  then show ?thesis by (simp add: act_response_None)
next
  case (Some rows)
  then show ?thesis
    using act_response_Some_cases [of ops t r c rows w] by (auto split del: if_split)
qed


lemma act_response_error:
  "fst (act_response ops t r c el w) = Inl e \<Longrightarrow> e = IndexError"
proof (cases el)
  case None
  assume "fst (act_response ops t r c el w) = Inl e"
  with None show ?thesis by (simp add: act_response_None)
next
  case (Some rows)
  assume "fst (act_response ops t r c el w) = Inl e"
  with Some show ?thesis
    using act_response_Some_cases [of ops t r c rows w] by (auto split del: if_split)
qed

lemma loop_step_cases:
  "dispatch ops ch k w = (hr, w1) \<Longrightarrow>
   loop_step ops (k, ch) w =
     (case hr of
        Inl e \<Rightarrow> (Inl e, w1)
      | Inr PyNone \<Rightarrow> (Inr (), w1)
      | Inr (PyBool b) \<Rightarrow> (if b then (Inl TypeError, w1) else (Inr (), w1))
      | Inr (PyTuple (t, r, c, el)) \<Rightarrow> act_response ops t r c el w1)"
  by (simp add: loop_step_def split: sum.splits pyval.splits prod.splits)

lemma new_game_highest: "highest w \<le> highest (snd (new_game ops w))"
  by (simp add: new_game_eq)

lemma new_game_engine:
  "engine_calls (trace (snd (new_game ops w))) = engine_calls (trace w) @ [KickOff]"
  by (simp add: new_game_eq)

lemma dispatch_highest: "highest w \<le> highest (snd (dispatch ops ch k w))"
  by (cases k)
     (simp_all add: dispatch_simps idle_fall_highest new_game_highest pause_def
        backend_act_eq backend_print_eq)

lemma dispatch_error:
  "fst (dispatch ops ch k w) = Inl e \<Longrightarrow> e = AttributeError \<or> e = ZeroDivisionError"
  by (cases k)
     (simp_all add: dispatch_simps idle_fall_error new_game_eq pause_def
        backend_act_eq backend_print_eq)

lemma loop_step_highest: "highest w \<le> highest (snd (loop_step ops inp w))"
proof -
  obtain k ch where inp: "inp = (k, ch)" by (cases inp)
  obtain hr w1 where d: "dispatch ops ch k w = (hr, w1)" by (cases "dispatch ops ch k w")
  have 1: "highest w \<le> highest w1"
    using dispatch_highest [of w ops ch k] d by simp
  have 2: "highest w1 \<le> highest (snd (loop_step ops (k, ch) w))"
    using act_response_highest [of w1 ops]
    by (simp add: loop_step_cases [OF d] split: sum.splits pyval.splits prod.splits)
  from 1 2 inp show ?thesis by simp
qed

lemma loop_step_error:
  assumes "fst (loop_step ops inp w) = Inl e"
  shows "e = AttributeError \<or> e = ZeroDivisionError \<or> e = TypeError \<or> e = IndexError"
proof -
  obtain k ch where inp: "inp = (k, ch)" by (cases inp)
  obtain hr w1 where d: "dispatch ops ch k w = (hr, w1)" by (cases "dispatch ops ch k w")
  show ?thesis
    using assms dispatch_error [of ops ch k w e] d act_response_error [of ops _ _ _ _ w1 e]
    by (auto simp add: inp loop_step_cases [OF d] split: sum.splits pyval.splits prod.splits if_splits)
qed

lemma run_loop_highest: "highest w \<le> highest (snd (run_loop ops inps w))"
proof (induction inps arbitrary: w)
  case Nil
  show ?case by simp
next
  case (Cons inp inps)
  obtain r w1 where s: "loop_step ops inp w = (r, w1)" by (cases "loop_step ops inp w")
  have 1: "highest w \<le> highest w1" using loop_step_highest [of w ops inp] s by simp
  show ?case
  proof (cases r)
    case (Inl e)
    with s 1 show ?thesis by simp
  next
    case (Inr u)
    with s 1 Cons.IH [of w1] show ?thesis by simp
  qed
qed

lemma run_loop_error:
  "fst (run_loop ops inps w) = Inl e \<Longrightarrow>
   e = AttributeError \<or> e = ZeroDivisionError \<or> e = TypeError \<or> e = IndexError"
proof (induction inps arbitrary: w)
  case Nil
  then show ?case by simp
next
  case (Cons inp inps)
  obtain r w1 where s: "loop_step ops inp w = (r, w1)" by (cases "loop_step ops inp w")
  show ?case
  proof (cases r)
    case (Inl e')
    with s Cons.prems loop_step_error [of ops inp w e] show ?thesis
      by (simp split: if_splits)
  next
    case (Inr u)
    with s Cons.prems Cons.IH [of w1] show ?thesis by (simp split: if_splits)
  qed
qed


lemma init_msg_panel_highest [simp]: "highest (init_msg_panel ops w) = highest w"
  by (simp add: init_msg_panel_def)

lemma run_highest: "highest w \<le> highest (snd (run ops inps w))"
  using run_loop_highest [of "init_msg_panel ops (emit [ActShow, MsgShow] w)" ops inps]
  by (simp add: run_def)

subsection \<open>Gravity ticks\<close>

lemma div_shift:
  fixes n t k :: int
  assumes "0 < n"
  shows "((t + 1) mod n + k) div n = (t + 1 + k) div n - (t + 1) div n"
proof -
  have "t + 1 + k = ((t + 1) mod n + k) + n * ((t + 1) div n)"
    by simp
  then have "(t + 1 + k) div n = ((t + 1) mod n + k + n * ((t + 1) div n)) div n"
    by simp
  also have "\<dots> = (t + 1) div n + ((t + 1) mod n + k) div n"
    using assms by (simp only: div_mult_self2)
  finally show ?thesis by simp
qed

lemma div_step:
  fixes n t :: int
  assumes "0 < n"
  shows "(t + 1) div n - t div n = (if (t + 1) mod n = 0 then 1 else 0)"
proof -
  have d: "(t mod n + 1) div n = (t + 1) div n - t div n"
  proof -
    have "t + 1 = (t mod n + 1) + n * (t div n)" by simp
    then have "(t + 1) div n = (t mod n + 1 + n * (t div n)) div n" by simp
    also have "\<dots> = t div n + (t mod n + 1) div n" using assms by (simp only: div_mult_self2)
    finally show ?thesis by simp
  qed
  have b: "0 \<le> t mod n" "t mod n < n" using assms by simp_all
  have m: "(t + 1) mod n = (t mod n + 1) mod n" by (simp add: mod_add_left_eq)
  show ?thesis
  proof (cases "t mod n + 1 = n")
    case True
    then show ?thesis using d m assms by simp
  next
    case False
    with b have "t mod n + 1 < n" by simp
    with b have "(t mod n + 1) div n = 0" "(t mod n + 1) mod n = t mod n + 1"
      by simp_all
    with b d m show ?thesis by simp
  qed
qed

lemma div_period: "0 < (n::int) \<Longrightarrow> (t + n) div n - t div n = 1"
  using div_mult_self2 [of n t 1] by simp

lemma idle_calls_gen:
  assumes "speed w = Some n" "0 < n"
  shows "\<exists>w'. idle_calls ops k w = (Inr (), w') \<and> speed w' = Some n \<and>
           trace w' = trace w @ replicate (nat ((tick w + int k) div n - tick w div n)) MoveDown"
  using assms(1)
proof (induction k arbitrary: w)
  case 0
  then show ?case by simp
next
  case (Suc k)
  let ?t1 = "(tick w + 1) mod n"
  have "\<exists>r w1. idle_fall ops w = (Inr r, w1) \<and> speed w1 = Some n \<and> tick w1 = ?t1 \<and>
      trace w1 = trace w @ replicate (nat ((tick w + 1) div n - tick w div n)) MoveDown"
  proof (cases "?t1 = 0")
    case True
    with Suc.prems assms(2) show ?thesis by (simp add: idle_fall_eq div_step)
  next
    case False
    with Suc.prems assms(2) show ?thesis by (simp add: idle_fall_eq div_step)
  qed
  then obtain r w1 where f: "idle_fall ops w = (Inr r, w1)" and s1: "speed w1 = Some n"
    and t1: "tick w1 = ?t1"
    and tr1: "trace w1 = trace w @ replicate (nat ((tick w + 1) div n - tick w div n)) MoveDown"
    by blast
  from Suc.IH [OF s1] obtain w' where
    c: "idle_calls ops k w1 = (Inr (), w')" and s': "speed w' = Some n"
    and tr': "trace w' = trace w1 @ replicate (nat ((tick w1 + int k) div n - tick w1 div n)) MoveDown"
    by blast
  have z: "?t1 div n = 0" using assms(2) by simp
  have a: "0 \<le> (tick w + 1) div n - tick w div n"
    using assms(2) by (simp add: div_step)
  have b: "0 \<le> (tick w + 1 + int k) div n - (tick w + 1) div n"
    using assms(2) by (simp add: zdiv_mono1)
  have "nat ((tick w + 1) div n - tick w div n) + nat ((tick w + 1 + int k) div n - (tick w + 1) div n)
        = nat ((tick w + int (Suc k)) div n - tick w div n)"
    using a b by (simp add: nat_add_distrib [symmetric] add.commute add.left_commute)
  then have "trace w' = trace w @ replicate (nat ((tick w + int (Suc k)) div n - tick w div n)) MoveDown"
    using tr' tr1 t1 z div_shift [OF assms(2), of "tick w" "int k"]
    by (simp add: replicate_add [symmetric])
  with f c s' show ?case by simp
qed

lemma idle_calls_period:
  assumes "speed w = Some n" "0 < n"
  shows "idle_calls ops (nat n) w = (Inr (), snd (idle_calls ops (nat n) w))"
    and "trace (snd (idle_calls ops (nat n) w)) = trace w @ [MoveDown]"
  using idle_calls_gen [OF assms, of ops "nat n"] assms(2) div_period [OF assms(2), of "tick w"]
  by auto

subsection \<open>Landing and scoring\<close>

lemma py_index_SCORE_TABLE:
  "py_index SCORE_TABLE (int k) = (if k < 5 then Some (SCORE_TABLE ! k) else None)"
  by (simp add: py_index_def SCORE_TABLE_def)

lemma SCORE_TABLE_pos: "k < 5 \<Longrightarrow> 0 < SCORE_TABLE ! k"
proof -
  assume "k < 5"
  then have "k = 0 \<or> k = 1 \<or> k = 2 \<or> k = 3 \<or> k = 4" by arith
  then show ?thesis by (auto simp add: SCORE_TABLE_def)
qed

lemma act_response_trace:
  "\<exists>evs. trace (snd (act_response ops t r c el w)) =
      trace w @
      (case el of None \<Rightarrow> []
       | Some rows \<Rightarrow> MergeTetro # (if rows \<noteq> [] then [BlinkRows rows 3, RemoveRows rows] else []))
      @ evs \<and>
     (\<forall>e\<in>set evs. (\<exists>s a r. e = PutText s a r) \<or> (\<exists>t. e = MsgRefreshTetro t)
         \<or> e = ActRefreshTetro t r c)"
proof (cases el)
  case None
  then show ?thesis by (simp add: act_response_None)
next
  case (Some rows)
  from act_response_Some_cases [of ops t r c rows w] show ?thesis
  proof (elim disjE conjE exE)
    assume "act_response ops t r c (Some rows) w =
      (Inl IndexError,
       emit (MergeTetro # (if rows \<noteq> [] then [BlinkRows rows 3, RemoveRows rows] else [])) w)"
    with Some show ?thesis by (simp split del: if_split)
  next
    fix p w1
    assume a: "act_response ops t r c (Some rows) w =
        (Inr (), emit [ActRefreshTetro t r c] (renew_game_stat ops w1))"
      and tr: "trace w1 = trace w @
          MergeTetro # (if rows \<noteq> [] then [BlinkRows rows 3, RemoveRows rows] else [])"
    from renew_game_stat_trace [of ops w1] obtain evs where
      e: "trace (renew_game_stat ops w1) = trace w1 @ evs"
      and s: "\<forall>e\<in>set evs. (\<exists>s a r. e = PutText s a r) \<or> (\<exists>t. e = MsgRefreshTetro t)"
      by blast
    have "trace (snd (act_response ops t r c el w)) =
      trace w @ (MergeTetro # (if rows \<noteq> [] then [BlinkRows rows 3, RemoveRows rows] else []))
        @ (evs @ [ActRefreshTetro t r c])"
      using a e tr Some by (simp split del: if_split)
    moreover have "\<forall>e\<in>set (evs @ [ActRefreshTetro t r c]).
        (\<exists>s a r. e = PutText s a r) \<or> (\<exists>t. e = MsgRefreshTetro t) \<or> e = ActRefreshTetro t r c"
      using s by auto
    ultimately show ?thesis using Some by (intro exI [of _ "evs @ [ActRefreshTetro t r c]"]) simp
  qed
qed

lemma act_response_ok:
  assumes "length rows < 5"
  shows "fst (act_response ops t r c (Some rows) w) = Inr ()"
    and "score (snd (act_response ops t r c (Some rows) w)) = score w + SCORE_TABLE ! length rows"
  using act_response_Some_cases [of ops t r c rows w] assms
  by (auto simp add: py_index_SCORE_TABLE split del: if_split)

lemma act_response_landed:
  "(MergeTetro \<in> set (issued w (snd (act_response ops tetro row col elim_rows w)))
      \<longleftrightarrow> elim_rows \<noteq> None)
   \<and> ((\<exists>rows. RemoveRows rows \<in> set (issued w (snd (act_response ops tetro row col elim_rows w))))
      \<longleftrightarrow> (\<exists>rows. elim_rows = Some rows \<and> rows \<noteq> []))
   \<and> ((\<forall>rows. elim_rows = Some rows \<longrightarrow> length rows < length SCORE_TABLE) \<longrightarrow>
        fst (act_response ops tetro row col elim_rows w) = Inr ()
        \<and> (score (snd (act_response ops tetro row col elim_rows w)) \<noteq> score w
             \<longleftrightarrow> elim_rows \<noteq> None)
        \<and> (elim_rows = Some [] \<longrightarrow>
             score (snd (act_response ops tetro row col elim_rows w)) = score w + 10))"
proof -
  let ?w' = "snd (act_response ops tetro row col elim_rows w)"
  from act_response_trace [of ops tetro row col elim_rows w] obtain evs where
    tr: "trace ?w' = trace w @
      (case elim_rows of None \<Rightarrow> []
       | Some rows \<Rightarrow> MergeTetro # (if rows \<noteq> [] then [BlinkRows rows 3, RemoveRows rows] else []))
      @ evs"
    and evs: "\<forall>e\<in>set evs. (\<exists>s a r. e = PutText s a r) \<or> (\<exists>t. e = MsgRefreshTetro t)
         \<or> e = ActRefreshTetro tetro row col"
    by blast
  have iss: "issued w ?w' =
      (case elim_rows of None \<Rightarrow> []
       | Some rows \<Rightarrow> MergeTetro # (if rows \<noteq> [] then [BlinkRows rows 3, RemoveRows rows] else []))
      @ evs"
    using tr by (rule issuedI)
  have 1: "MergeTetro \<in> set (issued w ?w') \<longleftrightarrow> elim_rows \<noteq> None"
    using evs iss by (cases elim_rows) auto
  have 2: "(\<exists>rows. RemoveRows rows \<in> set (issued w ?w'))
      \<longleftrightarrow> (\<exists>rows. elim_rows = Some rows \<and> rows \<noteq> [])"
    using evs iss by (cases elim_rows) auto
  have 3: "fst (act_response ops tetro row col elim_rows w) = Inr ()
        \<and> (score ?w' \<noteq> score w \<longleftrightarrow> elim_rows \<noteq> None)
        \<and> (elim_rows = Some [] \<longrightarrow> score ?w' = score w + 10)"
    if h: "\<forall>rows. elim_rows = Some rows \<longrightarrow> length rows < length SCORE_TABLE"
  proof (cases elim_rows)
    case None
    then show ?thesis by (simp add: act_response_None)
  next
    case (Some rows)
    with h have l: "length rows < 5" by (simp add: SCORE_TABLE_def)
    from act_response_ok [OF l, of ops tetro row col w] SCORE_TABLE_pos [OF l] Some
    show ?thesis by (auto simp add: SCORE_TABLE_def)
  qed
  from 1 2 3 show ?thesis by blast
qed

text \<open>
  C1: an iteration of the loop gets the handler's result \<open>res\<close>. A falsy \<open>res\<close> ends the
  iteration with nothing more done; a tuple is passed on, component by component, to
  \<open>_act_response\<close>. So while the result is handled, \<open>merge_tetro\<close> is called if and only
  if \<open>res\<close> is a tuple whose fourth component, the eliminated rows, is not \<open>None\<close>, and
  \<open>remove_rows\<close> if and only if that component is a non-empty list. When \<open>res\<close> is
  \<open>None\<close> or a tuple and the list is no longer than the score table allows (at most 4
  rows), the iteration ends normally and the score changes if and only if the
  eliminated rows are present; an empty list adds the 10 points of a landing without
  eliminated rows. The same holds of \<open>_act_response\<close> called on its own.
\<close>

theorem act_response_landing:
  "(fst (dispatch ops ch k w) = Inr res \<longrightarrow>
      (\<not> truthy res \<longrightarrow> loop_step ops (k, ch) w = (Inr (), snd (dispatch ops ch k w)))
      \<and> (\<forall>t r c el. res = PyTuple (t, r, c, el) \<longrightarrow>
            loop_step ops (k, ch) w = act_response ops t r c el (snd (dispatch ops ch k w)))
      \<and> (MergeTetro \<in> set (issued (snd (dispatch ops ch k w)) (snd (loop_step ops (k, ch) w)))
            \<longleftrightarrow> (\<exists>t r c rows. res = PyTuple (t, r, c, Some rows)))
      \<and> ((\<exists>rows. RemoveRows rows
              \<in> set (issued (snd (dispatch ops ch k w)) (snd (loop_step ops (k, ch) w))))
            \<longleftrightarrow> (\<exists>t r c rows. res = PyTuple (t, r, c, Some rows) \<and> rows \<noteq> []))
      \<and> (res \<noteq> PyBool True
           \<and> (\<forall>t r c rows. res = PyTuple (t, r, c, Some rows)
                  \<longrightarrow> length rows < length SCORE_TABLE) \<longrightarrow>
           fst (loop_step ops (k, ch) w) = Inr ()
           \<and> (score (snd (loop_step ops (k, ch) w)) \<noteq> score (snd (dispatch ops ch k w))
                \<longleftrightarrow> (\<exists>t r c rows. res = PyTuple (t, r, c, Some rows)))
           \<and> ((\<exists>t r c. res = PyTuple (t, r, c, Some [])) \<longrightarrow>
                score (snd (loop_step ops (k, ch) w))
                  = score (snd (dispatch ops ch k w)) + 10)))
   \<and> (MergeTetro \<in> set (issued w (snd (act_response ops tetro row col elim_rows w)))
      \<longleftrightarrow> elim_rows \<noteq> None)
   \<and> ((\<exists>rows. RemoveRows rows \<in> set (issued w (snd (act_response ops tetro row col elim_rows w))))
      \<longleftrightarrow> (\<exists>rows. elim_rows = Some rows \<and> rows \<noteq> []))
   \<and> ((\<forall>rows. elim_rows = Some rows \<longrightarrow> length rows < length SCORE_TABLE) \<longrightarrow>
        fst (act_response ops tetro row col elim_rows w) = Inr ()
        \<and> (score (snd (act_response ops tetro row col elim_rows w)) \<noteq> score w
             \<longleftrightarrow> elim_rows \<noteq> None)
        \<and> (elim_rows = Some [] \<longrightarrow>
             score (snd (act_response ops tetro row col elim_rows w)) = score w + 10))"
proof -
  let ?w1 = "snd (dispatch ops ch k w)"
  let ?w' = "snd (loop_step ops (k, ch) w)"
  have loop: "(\<not> truthy res \<longrightarrow> loop_step ops (k, ch) w = (Inr (), ?w1))
      \<and> (\<forall>t r c el. res = PyTuple (t, r, c, el) \<longrightarrow>
            loop_step ops (k, ch) w = act_response ops t r c el ?w1)
      \<and> (MergeTetro \<in> set (issued ?w1 ?w')
            \<longleftrightarrow> (\<exists>t r c rows. res = PyTuple (t, r, c, Some rows)))
      \<and> ((\<exists>rows. RemoveRows rows \<in> set (issued ?w1 ?w'))
            \<longleftrightarrow> (\<exists>t r c rows. res = PyTuple (t, r, c, Some rows) \<and> rows \<noteq> []))
      \<and> (res \<noteq> PyBool True
           \<and> (\<forall>t r c rows. res = PyTuple (t, r, c, Some rows)
                  \<longrightarrow> length rows < length SCORE_TABLE) \<longrightarrow>
           fst (loop_step ops (k, ch) w) = Inr ()
           \<and> (score ?w' \<noteq> score ?w1 \<longleftrightarrow> (\<exists>t r c rows. res = PyTuple (t, r, c, Some rows)))
           \<and> ((\<exists>t r c. res = PyTuple (t, r, c, Some [])) \<longrightarrow> score ?w' = score ?w1 + 10))"
    if f: "fst (dispatch ops ch k w) = Inr res"
  proof -
    from f have d: "dispatch ops ch k w = (Inr res, ?w1)"
      by (metis prod.collapse)
    note ls = loop_step_cases [OF d]
    show ?thesis
    proof (cases res)
      case PyNone
      with ls have "loop_step ops (k, ch) w = (Inr (), ?w1)" by simp
      with PyNone show ?thesis by (simp add: issued_def)
    next
      case (PyBool b)
      with ls have "loop_step ops (k, ch) w = (if b then (Inl TypeError, ?w1) else (Inr (), ?w1))"
        by simp
      with PyBool show ?thesis by (simp add: issued_def)
    next
      case (PyTuple a)
      obtain t r c el where a: "a = (t, r, c, el)" by (cases a)
      from ls PyTuple a have e: "loop_step ops (k, ch) w = act_response ops t r c el ?w1"
        by simp
      from act_response_landed [of ?w1 ops t r c el] PyTuple a show ?thesis
        unfolding e by auto
    qed
  qed
  from loop act_response_landed [of w ops tetro row col elim_rows] show ?thesis
    by blast
qed

theorem act_response_landing_witness:
  "fst (dispatch demo_ops [] SPACE demo_started) = Inr (PyTuple (2, 0, 5, Some [19]))
   \<and> loop_step demo_ops (SPACE, []) demo_started
       = act_response demo_ops 2 0 5 (Some [19]) (snd (dispatch demo_ops [] SPACE demo_started))
   \<and> MergeTetro \<in> set (issued (snd (dispatch demo_ops [] SPACE demo_started))
                          (snd (loop_step demo_ops (SPACE, []) demo_started)))
   \<and> fst (loop_step demo_ops (SPACE, []) demo_started) = Inr ()
   \<and> score (snd (loop_step demo_ops (SPACE, []) demo_started))
       \<noteq> score (snd (dispatch demo_ops [] SPACE demo_started))
   \<and> fst (act_response demo_ops 1 0 5 (Some []) demo_game) = Inr ()
   \<and> score (snd (act_response demo_ops 1 0 5 (Some []) demo_game)) = score demo_game + 10"
proof -
  have d: "fst (dispatch demo_ops [] SPACE demo_started) = Inr (PyTuple (2, 0, 5, Some [19]))"
    by (simp add: dispatch_simps backend_act_eq demo_ops_def)
  note l = act_response_landing
      [where ops = demo_ops and ch = "[]" and k = SPACE and w = demo_started
         and res = "PyTuple (2, 0, 5, Some [19])", THEN conjunct1, THEN mp, OF d]
  have e: "loop_step demo_ops (SPACE, []) demo_started
       = act_response demo_ops 2 0 5 (Some [19]) (snd (dispatch demo_ops [] SPACE demo_started))"
    using l [THEN conjunct2, THEN conjunct1] by simp
  have m: "MergeTetro \<in> set (issued (snd (dispatch demo_ops [] SPACE demo_started))
                          (snd (loop_step demo_ops (SPACE, []) demo_started)))"
    using l [THEN conjunct2, THEN conjunct2, THEN conjunct1] by simp
  have s: "fst (loop_step demo_ops (SPACE, []) demo_started) = Inr ()
   \<and> score (snd (loop_step demo_ops (SPACE, []) demo_started))
       \<noteq> score (snd (dispatch demo_ops [] SPACE demo_started))"
    using l [THEN conjunct2, THEN conjunct2, THEN conjunct2, THEN conjunct2]
    by (simp add: SCORE_TABLE_def)
  have b: "fst (act_response demo_ops 1 0 5 (Some []) demo_game) = Inr ()
   \<and> score (snd (act_response demo_ops 1 0 5 (Some []) demo_game)) = score demo_game + 10"
    using act_response_landing
      [where ops = demo_ops and w = demo_game
         and tetro = 1 and row = 0 and col = 5 and elim_rows = "Some []",
       THEN conjunct2, THEN conjunct2, THEN conjunct2]
    by (simp add: SCORE_TABLE_def)
  show ?thesis
    by (intro conjI)
       (rule d e m s [THEN conjunct1] s [THEN conjunct2] b [THEN conjunct1] b [THEN conjunct2])+
qed

text \<open>
  C3: a landing that eliminates \<open>k\<close> rows, \<open>k\<close> from 0 to 4, adds exactly
  \<open>_SCORE_TABLE[k]\<close> to the score, and the table has five entries in strictly
  increasing order.
\<close>

theorem landing_score:
  "(k \<le> 4 \<and> length rows = k \<longrightarrow>
      fst (act_response ops tetro row col (Some rows) w) = Inr ()
      \<and> score (snd (act_response ops tetro row col (Some rows) w)) = score w + SCORE_TABLE ! k)
   \<and> length SCORE_TABLE = 5
   \<and> sorted_wrt (<) SCORE_TABLE"
  using act_response_ok [of rows ops tetro row col w]
  by (auto simp add: SCORE_TABLE_def)

theorem landing_score_witness:
  "fst (act_response demo_ops 2 0 5 (Some [18, 19]) demo_game) = Inr ()
   \<and> score (snd (act_response demo_ops 2 0 5 (Some [18, 19]) demo_game)) = score demo_game + 200"
  using landing_score
    [where k = 2 and rows = "[18, 19]" and ops = demo_ops and tetro = 2 and row = 0 and col = 5
       and w = demo_game]
  by (simp add: SCORE_TABLE_def)

subsection \<open>The highest score\<close>

lemma init_msg_panel_score [simp]: "score (init_msg_panel ops w) = score w"
  by (simp add: init_msg_panel_def)

lemma idle_fall_score: "score (snd (idle_fall ops w)) = score w"
  by (simp add: idle_fall_def call_backend_eq Let_def split: option.splits)

lemma dispatch_score_le:
  "score w \<le> highest w \<Longrightarrow>
   score (snd (dispatch ops ch k w)) \<le> highest (snd (dispatch ops ch k w))"
  by (cases k)
     (simp_all add: dispatch_simps idle_fall_highest idle_fall_score new_game_eq pause_def
        backend_act_eq backend_print_eq)

lemma act_response_score_le:
  assumes "score w \<le> highest w"
  shows "score (snd (act_response ops t r c el w)) \<le> highest (snd (act_response ops t r c el w))"
proof (cases el)
  case None
  with assms show ?thesis by (simp add: act_response_None)
next
  case (Some rows)
  with assms show ?thesis
    using act_response_Some_cases [of ops t r c rows w] by (auto split del: if_split)
qed

lemma loop_step_score_le:
  assumes "score w \<le> highest w"
  shows "score (snd (loop_step ops inp w)) \<le> highest (snd (loop_step ops inp w))"
proof -
  obtain k ch where inp: "inp = (k, ch)" by (cases inp)
  obtain hr w1 where d: "dispatch ops ch k w = (hr, w1)" by (cases "dispatch ops ch k w")
  have 1: "score w1 \<le> highest w1"
    using dispatch_score_le [OF assms, of ops ch k] d by simp
  show ?thesis
    using 1 act_response_score_le [OF 1, of ops]
    by (simp add: inp loop_step_cases [OF d] split: sum.splits pyval.splits prod.splits)
qed

lemma run_loop_score_le:
  "score w \<le> highest w \<Longrightarrow>
   score (snd (run_loop ops inps w)) \<le> highest (snd (run_loop ops inps w))"
proof (induction inps arbitrary: w)
  case Nil
  then show ?case by simp
next
  case (Cons inp inps)
  obtain r w1 where s: "loop_step ops inp w = (r, w1)" by (cases "loop_step ops inp w")
  have 1: "score w1 \<le> highest w1"
    using loop_step_score_le [OF Cons.prems, of ops inp] s by simp
  show ?case
  proof (cases r)
    case (Inl e)
    with s 1 Cons.prems show ?thesis by simp
  next
    case (Inr u)
    with s Cons.prems Cons.IH [OF 1] show ?thesis by simp
  qed
qed

lemma run_score_le:
  "score w \<le> highest w \<Longrightarrow> score (snd (run ops inps w)) \<le> highest (snd (run ops inps w))"
  unfolding run_def by (rule run_loop_score_le) simp

text \<open>
  C9: no controller operation lowers \<open>highest\<close>: not \<open>_renew_game_stat\<close>,
  \<open>_update_score\<close>, \<open>_new_game\<close>, \<open>_idle_fall\<close> or \<open>_act_response\<close>, not an iteration
  of the loop, and not the loop or \<open>run\<close> as a whole, whether they return or raise.
  \<open>_new_game\<close> leaves the score at 10 whatever it was. When \<open>_update_score\<close> returns
  normally the score is at most \<open>highest\<close>, and an iteration of the loop and \<open>run\<close>
  keep the score at most \<open>highest\<close> if it was so before. A new controller starts with
  both at 0.
\<close>

theorem highest_non_decreasing:
  "highest w \<le> highest (renew_game_stat ops w)
   \<and> highest w \<le> highest (snd (update_score ops row_num w))
   \<and> highest w \<le> highest (snd (new_game ops w))
   \<and> score (snd (new_game ops w)) = 10
   \<and> highest w \<le> highest (snd (idle_fall ops w))
   \<and> highest w \<le> highest (snd (act_response ops tetro row col elim_rows w))
   \<and> highest w \<le> highest (snd (loop_step ops inp w))
   \<and> highest w \<le> highest (snd (run_loop ops inps w))
   \<and> highest w \<le> highest (snd (run ops inps w))
   \<and> (fst (update_score ops row_num w) = Inr () \<longrightarrow>
        score (snd (update_score ops row_num w)) \<le> highest (snd (update_score ops row_num w)))
   \<and> (score w \<le> highest w \<longrightarrow>
        score (snd (loop_step ops inp w)) \<le> highest (snd (loop_step ops inp w))
        \<and> score (snd (run ops inps w)) \<le> highest (snd (run ops inps w)))
   \<and> score (init ops o_row o_col width height tr) = 0
   \<and> highest (init ops o_row o_col width height tr) = 0"
  using update_score_highest [of w ops row_num] new_game_highest [of w ops]
    idle_fall_highest [of ops w] act_response_highest [of w ops tetro row col elim_rows]
    loop_step_highest [of w ops inp] run_loop_highest [of w ops inps]
    run_highest [of w ops inps] update_score_score_le [of ops row_num w]
    loop_step_score_le [of w ops inp] run_score_le [of w ops inps]
  by (simp add: new_game_eq init_def)

theorem highest_non_decreasing_witness:
  "fst (update_score demo_ops 1 (demo_game\<lparr>score := 950, highest := 1000\<rparr>)) = Inr ()
   \<and> score (snd (update_score demo_ops 1 (demo_game\<lparr>score := 950, highest := 1000\<rparr>)))
       \<le> highest (snd (update_score demo_ops 1 (demo_game\<lparr>score := 950, highest := 1000\<rparr>)))
   \<and> 1000 \<le> highest (snd (update_score demo_ops 1 (demo_game\<lparr>score := 950, highest := 1000\<rparr>)))
   \<and> 1000 \<le> highest (snd (new_game demo_ops (demo_game\<lparr>score := 950, highest := 1000\<rparr>)))
   \<and> score (demo_game\<lparr>score := 950, highest := 1000\<rparr>)
       \<le> highest (demo_game\<lparr>score := 950, highest := 1000\<rparr>)
   \<and> score (snd (run demo_ops [(ENTER, [])] (demo_game\<lparr>score := 950, highest := 1000\<rparr>)))
       \<le> highest (snd (run demo_ops [(ENTER, [])] (demo_game\<lparr>score := 950, highest := 1000\<rparr>)))"
  using highest_non_decreasing
    [where w = "demo_game\<lparr>score := 950, highest := 1000\<rparr>" and ops = demo_ops and row_num = 1
       and inps = "[(ENTER, [])]"]
  by (simp add: update_score_def py_index_def SCORE_TABLE_def Let_def)

subsection \<open>Levels and the gravity speed\<close>

text \<open>
  C4: when \<open>i\<close> is the smallest index whose threshold in \<open>_LEVEL_TABLE\<close> strictly
  exceeds the score, \<open>_renew_game_stat\<close> displays level \<open>i + 1\<close> and sets \<open>speed\<close> to
  \<open>len(_LEVEL_TABLE) - i\<close>, changing nothing else. So of two scores the one with the
  higher level gets the strictly smaller speed. The thresholds are strictly increasing.
\<close>

theorem renew_game_stat_level:
  "level_index (score w) i \<and> level_index (score w') i' \<longrightarrow>
     renew_game_stat ops w =
       (emit [PutText (stat_text (int i + 1) (score w) (highest w)) None
                (Some (stat_sect_row w + 1)),
              MsgRefreshTetro (next_tetro ops (backend w))] w)
       \<lparr>speed := Some (int (length LEVEL_TABLE) - int i)\<rparr>
     \<and> (i < i' \<longrightarrow>
          (\<exists>n n'. speed (renew_game_stat ops w) = Some n
             \<and> speed (renew_game_stat ops w') = Some n' \<and> n' < n))
     \<and> sorted_wrt (<) LEVEL_TABLE"
proof (intro impI, elim conjE)
  assume a: "level_index (score w) i" and b: "level_index (score w') i'"
  have r: "renew_game_stat ops v =
       (emit [PutText (stat_text (int j + 1) (score v) (highest v)) None
                (Some (stat_sect_row v + 1)),
              MsgRefreshTetro (next_tetro ops (backend v))] v)
       \<lparr>speed := Some (int (length LEVEL_TABLE) - int j)\<rparr>"
    if "level_index (score v) j" for v :: "('a, 'b) termtris" and j
    using that renew_loop_first [of j LEVEL_TABLE v ops 0]
    by (simp add: level_index_def renew_game_stat_def not_less)
  have "sorted_wrt (<) LEVEL_TABLE" by (simp add: LEVEL_TABLE_def)
  with r [OF a] r [OF b] show "renew_game_stat ops w =
       (emit [PutText (stat_text (int i + 1) (score w) (highest w)) None
                (Some (stat_sect_row w + 1)),
              MsgRefreshTetro (next_tetro ops (backend w))] w)
       \<lparr>speed := Some (int (length LEVEL_TABLE) - int i)\<rparr>
     \<and> (i < i' \<longrightarrow>
          (\<exists>n n'. speed (renew_game_stat ops w) = Some n
             \<and> speed (renew_game_stat ops w') = Some n' \<and> n' < n))
     \<and> sorted_wrt (<) LEVEL_TABLE"
    by simp
qed

theorem renew_game_stat_level_witness:
  "level_index (score (demo_game\<lparr>score := 990\<rparr>)) 0
   \<and> level_index (score (demo_game\<lparr>score := 1000\<rparr>)) 1
   \<and> speed (renew_game_stat demo_ops (demo_game\<lparr>score := 990\<rparr>)) = Some 8
   \<and> speed (renew_game_stat demo_ops (demo_game\<lparr>score := 1000\<rparr>)) = Some 7"
  using renew_game_stat_level
    [where w = "demo_game\<lparr>score := 990\<rparr>" and w' = "demo_game\<lparr>score := 1000\<rparr>"
       and i = 0 and i' = 1 and ops = demo_ops]
    renew_game_stat_level
    [where w = "demo_game\<lparr>score := 1000\<rparr>" and w' = "demo_game\<lparr>score := 1000\<rparr>"
       and i = 1 and i' = 1 and ops = demo_ops]
  by (simp add: level_index_def LEVEL_TABLE_def)

text \<open>
  C10: \<open>_renew_game_stat\<close> assigns \<open>speed\<close> exactly when the score is below the last
  threshold, 80,000,000, and then to a value from 1 to 8. With a score at or above it
  the routine changes nothing: no text is put, and \<open>speed\<close> keeps its value, or stays
  unassigned as \<open>__init__\<close> leaves it.
\<close>

theorem renew_game_stat_threshold:
  "(score w < 80000000 \<longrightarrow>
      (\<exists>s. speed (renew_game_stat ops w) = Some s \<and> 1 \<le> s \<and> s \<le> 8))
   \<and> (80000000 \<le> score w \<longrightarrow> renew_game_stat ops w = w)
   \<and> last LEVEL_TABLE = 80000000
   \<and> speed (init ops o_row o_col width height tr) = None"
  using renew_game_stat_top [of w ops] renew_game_stat_speed [of w ops]
  by (simp add: LEVEL_TABLE_def init_def)

theorem renew_game_stat_threshold_witness:
  "(\<exists>s. speed (renew_game_stat demo_ops (demo_game\<lparr>score := 79999990\<rparr>)) = Some s
        \<and> 1 \<le> s \<and> s \<le> 8)
   \<and> renew_game_stat demo_ops (demo_game\<lparr>score := 80000000\<rparr>) = demo_game\<lparr>score := 80000000\<rparr>
   \<and> speed (renew_game_stat demo_ops (demo_game\<lparr>score := 80000000\<rparr>)) = None"
  using renew_game_stat_threshold [where w = "demo_game\<lparr>score := 79999990\<rparr>" and ops = demo_ops]
    renew_game_stat_threshold [where w = "demo_game\<lparr>score := 80000000\<rparr>" and ops = demo_ops]
  by (simp add: demo_game_def init_def)

subsection \<open>Dispatching keys\<close>


lemma update_score_backend: "backend (snd (update_score ops n w)) = backend w"
  using update_score_cases [of ops n w] by auto















text \<open>
  C7: the handler of the pause key is \<open>lambda: not termkey.getch()\<close>. It calls nothing
  on the backend and returns the controller unchanged, and so does the whole iteration
  of the loop. When \<open>termkey.getch()\<close> returns a truthy value (a character was read),
  the handler's result is falsy and the iteration ends normally without calling
  \<open>_act_response\<close>.
\<close>

theorem pause_no_effect:
  "dispatch ops ch ESC = pause ch
   \<and> snd (pause ch w) = w
   \<and> snd (loop_step ops (ESC, ch) w) = w
   \<and> (ch \<noteq> [] \<longrightarrow>
        (\<exists>res. fst (pause ch w) = Inr res \<and> \<not> truthy res)
        \<and> loop_step ops (ESC, ch) w = (Inr (), w))"
  by (simp add: dispatch_simps pause_def loop_step_def)

theorem pause_no_effect_witness:
  "''p'' \<noteq> []
   \<and> (\<exists>res. fst (pause ''p'' demo_started) = Inr res \<and> \<not> truthy res)
   \<and> loop_step demo_ops (ESC, ''p'') demo_started = (Inr (), demo_started)"
  using pause_no_effect [where ops = demo_ops and ch = "''p''" and w = demo_started]
  by simp

subsection \<open>The dimensions check of \<open>main\<close>\<close>

lemma run_error:
  "fst (run ops inps w) = Inl e \<Longrightarrow>
   e = AttributeError \<or> e = ZeroDivisionError \<or> e = TypeError \<or> e = IndexError"
  unfolding run_def by (rule run_loop_error)

text \<open>
  C2: when the width and height that \<open>main\<close> has read are below 12 or below 20, \<open>main\<close>
  raises the \<open>ValueError\<close> of the dimensions check, having issued no call at all: no
  panel and no backend has been constructed. When the width is at least 12 and the
  height at least 20, \<open>main\<close> does not end with that error.
\<close>

theorem main_dimension_error:
  "parse_dims py_int argv = Inr (width, height) \<longrightarrow>
     (width < 12 \<or> height < 20 \<longrightarrow>
        main ops py_int argv term_size inps = (Inl (ValueError dims_message), []))
     \<and> (12 \<le> width \<and> 20 \<le> height \<longrightarrow>
        fst (main ops py_int argv term_size inps) \<noteq> Inl (ValueError dims_message))"
proof (intro impI conjI)
  assume p: "parse_dims py_int argv = Inr (width, height)" and "width < 12 \<or> height < 20"
  then show "main ops py_int argv term_size inps = (Inl (ValueError dims_message), [])"
    by (simp add: main_def)
next
  assume p: "parse_dims py_int argv = Inr (width, height)" and d: "12 \<le> width \<and> 20 \<le> height"
  show "fst (main ops py_int argv term_size inps) \<noteq> Inl (ValueError dims_message)"
  proof (cases term_size)
    case None
    with p d show ?thesis by (simp add: main_def)
  next
    case (Some sz)
    obtain scr_width scr_height where sz: "sz = (scr_width, scr_height)" by (cases sz)
    let ?o_row = "min ((scr_height - (height + 2)) div 2 + 1) 5"
    let ?o_col = "(scr_width - (width * 2 + 3) * 2) div 2 + 1"
    show ?thesis
    proof (cases "?o_row \<le> 0 \<or> ?o_col \<le> 0")
      case True
      with p d Some sz show ?thesis by (simp add: main_def Let_def)
    next
      case False
      let ?w0 = "init ops ?o_row ?o_col width height
                   [SwitchScreen, ClearScreen, HideCursor, SetColor DEEP_KHAKI COFFEE,
                    SetParams (Some False) (Some False)]"
      obtain r w1 where r: "run ops inps ?w0 = (r, w1)" by (cases "run ops inps ?w0")
      have "r \<noteq> Inl (ValueError dims_message)"
        using run_error [of ops inps ?w0 "ValueError dims_message"] r by auto
      with p d Some sz False r show ?thesis by (simp add: main_def Let_def)
    qed
  qed
qed

theorem main_dimension_error_witness:
  "parse_dims demo_int [''termtris.py'', ''5'', ''30''] = Inr (5, 30)
   \<and> main demo_ops demo_int [''termtris.py'', ''5'', ''30''] (Some (80, 24)) []
       = (Inl (ValueError dims_message), [])
   \<and> parse_dims demo_int [''termtris.py'', ''12'', ''20''] = Inr (12, 20)
   \<and> fst (main demo_ops demo_int [''termtris.py'', ''12'', ''20''] (Some (80, 24)) [])
       \<noteq> Inl (ValueError dims_message)"
  using main_dimension_error
      [where py_int = demo_int and argv = "[''termtris.py'', ''5'', ''30'']" and width = 5
         and height = 30 and ops = demo_ops and term_size = "Some (80, 24)" and inps = "[]"]
    main_dimension_error
      [where py_int = demo_int and argv = "[''termtris.py'', ''12'', ''20'']" and width = 12
         and height = 20 and ops = demo_ops and term_size = "Some (80, 24)" and inps = "[]"]
  by (simp add: parse_dims_def demo_int_def)

subsection \<open>Gravity\<close>

text \<open>
  C5: with \<open>speed\<close> assigned to \<open>n > 0\<close>, \<open>_idle_fall\<close> sets \<open>tick\<close> to
  \<open>(tick + 1) % n\<close>; when that is not 0 it returns \<open>None\<close> and calls nothing, when it
  is 0 it calls the backend's \<open>move_down\<close> and returns its result. \<open>n\<close> calls in a row
  all return normally and issue, between them, exactly one call: \<open>move_down\<close>.
\<close>

theorem idle_fall_gravity:
  "speed w = Some n \<and> 0 < n \<longrightarrow>
     idle_fall ops w =
       (if (tick w + 1) mod n \<noteq> 0 then (Inr PyNone, w\<lparr>tick := (tick w + 1) mod n\<rparr>)
        else (Inr (of_action (fst (move_down ops (backend w)))),
              w\<lparr>tick := 0, backend := snd (move_down ops (backend w)),
                trace := trace w @ [MoveDown]\<rparr>))
     \<and> fst (idle_calls ops (nat n) w) = Inr ()
     \<and> issued w (snd (idle_calls ops (nat n) w)) = [MoveDown]"
proof (intro impI, elim conjE)
  assume s: "speed w = Some n" and n: "0 < n"
  from n have "n \<noteq> 0" by simp
  note e = idle_fall_eq [OF s this, of ops]
  have "fst (idle_calls ops (nat n) w) = Inr ()"
    using idle_calls_period(1) [OF s n, of ops] by (metis fst_conv)
  moreover have "issued w (snd (idle_calls ops (nat n) w)) = [MoveDown]"
    using idle_calls_period(2) [OF s n, of ops] by (rule issuedI)
  ultimately show "idle_fall ops w =
       (if (tick w + 1) mod n \<noteq> 0 then (Inr PyNone, w\<lparr>tick := (tick w + 1) mod n\<rparr>)
        else (Inr (of_action (fst (move_down ops (backend w)))),
              w\<lparr>tick := 0, backend := snd (move_down ops (backend w)),
                trace := trace w @ [MoveDown]\<rparr>))
     \<and> fst (idle_calls ops (nat n) w) = Inr ()
     \<and> issued w (snd (idle_calls ops (nat n) w)) = [MoveDown]"
    using e by simp
qed

lemma demo_started_speed: "speed demo_started = Some 8"
  by (simp add: demo_started_def init_msg_panel_def renew_game_stat_def LEVEL_TABLE_def
      demo_game_def init_def)

theorem idle_fall_gravity_witness:
  "speed demo_started = Some 8
   \<and> fst (idle_calls demo_ops 8 demo_started) = Inr ()
   \<and> issued demo_started (snd (idle_calls demo_ops 8 demo_started)) = [MoveDown]"
  using idle_fall_gravity [where w = demo_started and n = 8 and ops = demo_ops]
  by (simp add: demo_started_speed)

subsection \<open>The score of a new game\<close>

text \<open>
  C8: \<open>_new_game\<close> always returns normally, with the backend's \<open>kick_off\<close> result, and
  leaves the score at 10, the score-table entry for zero rows: it sets the score to 0
  and then calls \<open>_update_score(0)\<close>. When \<open>kick_off\<close> reports no landing, the loop
  iteration for the Enter key ends normally with the score still 10.
\<close>

theorem new_game_score:
  "fst (new_game ops w) = Inr (of_action (fst (kick_off ops (backend w))))
   \<and> score (snd (new_game ops w)) = 10
   \<and> py_index SCORE_TABLE 0 = Some 10
   \<and> ((\<forall>tetro row col elim_rows.
          fst (kick_off ops (backend w)) = Some (tetro, row, col, elim_rows) \<longrightarrow> elim_rows = None)
       \<longrightarrow> fst (loop_step ops (ENTER, ch) w) = Inr ()
           \<and> score (snd (loop_step ops (ENTER, ch) w)) = 10)"
proof -
  let ?res = "fst (kick_off ops (backend w))"
  let ?w1 = "snd (new_game ops w)"
  have f: "fst (new_game ops w) = Inr (of_action ?res)" and s: "score ?w1 = 10"
    by (simp_all add: new_game_eq)
  have n: "new_game ops w = (Inr (of_action ?res), ?w1)"
    by (simp add: new_game_eq)
  then have d: "dispatch ops ch ENTER w = (Inr (of_action ?res), ?w1)"
    by (simp add: dispatch_simps)
  have "fst (loop_step ops (ENTER, ch) w) = Inr ()
           \<and> score (snd (loop_step ops (ENTER, ch) w)) = 10"
    if h: "\<forall>tetro row col elim_rows. ?res = Some (tetro, row, col, elim_rows) \<longrightarrow> elim_rows = None"
  proof (cases ?res)
    case None
    with s show ?thesis by (simp add: loop_step_cases [OF d])
  next
    case (Some a)
    obtain t r c el where a: "a = (t, r, c, el)" by (cases a)
    with h Some have "el = None" by simp
    with s a Some show ?thesis by (simp add: loop_step_cases [OF d] act_response_None)
  qed
  with f s show ?thesis by (simp add: py_index_SCORE_TABLE_0)
qed

theorem new_game_score_witness:
  "fst (loop_step demo_ops (ENTER, []) demo_started) = Inr ()
   \<and> score (snd (loop_step demo_ops (ENTER, []) demo_started)) = 10"
  using new_game_score [where ops = demo_ops and w = demo_started and ch = "[]"]
  by (simp add: demo_ops_def)

end
